theory Spec2Isabelle
  imports Complex_Main
begin

section \<open>Data model of the completion client\<close>

text \<open>
  The development embeds \<^verbatim>\<open>graphiti_core/llm_client/openai_compatible_client.py\<close>
  (the class \<^verbatim>\<open>OpenAICompatibleClient\<close>) and
  \<^verbatim>\<open>graphiti_core/utils/maintenance/graph_data_operations.py\<close>
  (\<^verbatim>\<open>retrieve_episodes\<close>).

  A Python string is modelled as a \<open>string\<close>, the bytes of its UTF-8 encoding.
  The \<^verbatim>\<open>print\<close> and \<^verbatim>\<open>logger\<close> calls have no effect on any value and are left
  out.
\<close>

text \<open>\<^verbatim>\<open>Message\<close> (prompts/models.py): a mutable object with a role and a content.\<close>

record message =
  role :: string
  content :: string

text \<open>
  A \<^verbatim>\<open>ChatCompletionMessageParam\<close>: the dictionary
  \<^verbatim>\<open>{'role': ..., 'content': ...}\<close> appended to \<^verbatim>\<open>openai_messages\<close>.
\<close>

record chat_message_param =
  param_role :: string
  param_content :: string

text \<open>The dictionary \<^verbatim>\<open>completion_params\<close> (lines 104-109).\<close>

record completion_params =
  req_model :: string
  req_messages :: "chat_message_param list"
  req_temperature :: real
  req_max_tokens :: int

text \<open>Python values as returned by \<^verbatim>\<open>json.loads\<close> and \<^verbatim>\<open>model_dump\<close>.\<close>

datatype py_value =
    PyNone
  | PyBool bool
  | PyInt int
  | PyFloat real
  | PyStr string
  | PyList "py_value list"
  | PyDict "(string \<times> py_value) list"

text \<open>
  \<^verbatim>\<open>response.choices[i].message\<close>: the role, the content (which may be \<^verbatim>\<open>None\<close>)
  and the provider's further fields.
\<close>

record completion_message =
  msg_role :: string
  msg_content :: "string option"
  msg_extra :: "(string \<times> py_value) list"

text \<open>The response object of the transport: the messages of its choices, in order.\<close>

datatype chat_completion = ChatCompletion (choices: "completion_message list")

text \<open>
  Exceptions, by the class that the \<^verbatim>\<open>except\<close> clauses of \<^verbatim>\<open>generate_response\<close>
  tell apart. \<open>RateLimitError\<close> and \<open>RefusalError\<close> are the classes of
  \<^verbatim>\<open>.errors\<close>, the ones that line 30 imports and line 149 names; the \<open>API...\<close>
  classes, \<open>InternalServerError\<close> and \<open>BadRequestError\<close> are those of the
  \<^verbatim>\<open>openai\<close> package. \<open>OpenAIRateLimitError\<close> is \<^verbatim>\<open>openai.RateLimitError\<close>, the
  exception with which the transport reports a rate limit (HTTP 429): a class of
  the same name as, and unrelated to, the one of \<^verbatim>\<open>.errors\<close>.
  \<open>JSONDecodeError\<close> is the class that line 123 catches. \<open>OtherException n\<close> is
  any other subclass of \<^verbatim>\<open>Exception\<close> with class name \<open>n\<close>, and
  \<open>OtherBaseException n\<close> a \<^verbatim>\<open>BaseException\<close> that is not an \<^verbatim>\<open>Exception\<close>
  (a cancellation, for instance).
\<close>

datatype exn_class =
    RateLimitError
  | RefusalError
  | APITimeoutError
  | APIConnectionError
  | InternalServerError
  | BadRequestError
  | OpenAIRateLimitError
  | JSONDecodeError
  | IndexError
  | TypeError
  | OtherException string
  | OtherBaseException string

text \<open>An exception object: its class and \<^verbatim>\<open>str(e)\<close>.\<close>

datatype exn = Exn (cls: exn_class) (text_of: string)

fun class_name :: "exn_class \<Rightarrow> string" where
  "class_name RateLimitError = ''RateLimitError''"
| "class_name RefusalError = ''RefusalError''"
| "class_name APITimeoutError = ''APITimeoutError''"
| "class_name APIConnectionError = ''APIConnectionError''"
| "class_name InternalServerError = ''InternalServerError''"
| "class_name BadRequestError = ''BadRequestError''"
| "class_name OpenAIRateLimitError = ''RateLimitError''"
| "class_name JSONDecodeError = ''JSONDecodeError''"
| "class_name IndexError = ''IndexError''"
| "class_name TypeError = ''TypeError''"
| "class_name (OtherException n) = n"
| "class_name (OtherBaseException n) = n"

text \<open>\<^verbatim>\<open>isinstance(e, Exception)\<close>.\<close>

fun is_Exception :: "exn_class \<Rightarrow> bool" where
  "is_Exception (OtherBaseException n) = False"
| "is_Exception k = True"

text \<open>
  The transport \<^verbatim>\<open>self.client.chat.completions.create\<close> is external: a call
  either returns a completion or raises, and may change the state of the outside
  world, which is passed explicitly.
\<close>

datatype completion_result = Completed chat_completion | Failed exn

type_synonym 's transport = "'s \<Rightarrow> completion_params \<Rightarrow> completion_result \<times> 's"

text \<open>
  The client object: \<^verbatim>\<open>self.model\<close>, \<^verbatim>\<open>self.temperature\<close> and
  \<^verbatim>\<open>self.max_tokens\<close>, set by the base class from the configuration. Three
  functions that the class calls and that are not part of the two source files are
  carried with the client as parameters. \<open>clean_input\<close> is the method
  \<^verbatim>\<open>_clean_input\<close> of the base class \<^verbatim>\<open>LLMClient\<close>. \<open>json_loads\<close> is
  \<^verbatim>\<open>json.loads\<close> on a string: it returns a value or raises, a
  \<^verbatim>\<open>JSONDecodeError\<close> on a text that is not JSON and other exceptions on other
  texts (a \<^verbatim>\<open>RecursionError\<close> on deep nesting, a plain \<^verbatim>\<open>ValueError\<close> on an
  integer of too many digits). \<open>lower_unicode\<close> is \<^verbatim>\<open>str.lower\<close> on the strings
  that are not ASCII.
\<close>

record client =
  model :: "string option"
  temperature :: real
  max_tokens :: int
  clean_input :: "string \<Rightarrow> string"
  json_loads :: "string \<Rightarrow> exn + py_value"
  lower_unicode :: "string \<Rightarrow> string"

definition DEFAULT_MODEL :: string where
  "DEFAULT_MODEL = ''deepseek''"

definition MAX_RETRIES :: nat where
  "MAX_RETRIES = 2"

section \<open>The single attempt: \<^verbatim>\<open>_generate_response\<close>\<close>

text \<open>\<^verbatim>\<open>self.model or DEFAULT_MODEL\<close>: \<^verbatim>\<open>None\<close> and the empty string are falsy.\<close>

definition model_or_default :: "client \<Rightarrow> string" where
  "model_or_default c =
     (case model c of
        None \<Rightarrow> DEFAULT_MODEL
      | Some m \<Rightarrow> if m = [] then DEFAULT_MODEL else m)"

text \<open>
  \<^verbatim>\<open>str.lower\<close>. A Python string is modelled by its UTF-8 encoding, so a
  character of the string is ASCII when its byte is below 128, and an ASCII text
  occurs in a string exactly when its bytes occur in the encoding. On a string of
  ASCII characters \<^verbatim>\<open>str.lower\<close> maps the letters A to Z to a to z and keeps
  every other character. On any other string it follows the Unicode case mapping
  (the Kelvin sign U+212A lowers to k), which is the parameter.
\<close>

definition lower_char :: "char \<Rightarrow> char" where
  "lower_char ch =
     (if (65::nat) \<le> of_char ch \<and> of_char ch \<le> (90::nat)
      then char_of (of_char ch + (32::nat)) else ch)"

definition is_ascii :: "string \<Rightarrow> bool" where
  "is_ascii s = list_all (\<lambda>ch. of_char ch < (128::nat)) s"

definition lower :: "(string \<Rightarrow> string) \<Rightarrow> string \<Rightarrow> string" where
  "lower unicode_lower s = (if is_ascii s then map lower_char s else unicode_lower s)"

text \<open>\<^verbatim>\<open>p in s\<close> on strings: \<open>p\<close> occurs in \<open>s\<close> as a contiguous substring.\<close>

fun str_contains :: "string \<Rightarrow> string \<Rightarrow> bool" where
  "str_contains p [] = (p = [])"
| "str_contains p (x # xs) = (take (length p) (x # xs) = p \<or> str_contains p xs)"

text \<open>Line 102: the local variable \<^verbatim>\<open>is_deepseek\<close>.\<close>

definition is_deepseek :: "client \<Rightarrow> bool" where
  "is_deepseek c = str_contains ''deepseek'' (lower (lower_unicode c) (model_or_default c))"

text \<open>
  Lines 91-97: the loop over \<^verbatim>\<open>messages\<close>. Every message's content is overwritten
  in place with its cleaned content; a message of role \<^verbatim>\<open>user\<close> or \<^verbatim>\<open>system\<close> is
  appended to \<^verbatim>\<open>openai_messages\<close>, any other message is not. The function returns the
  conversation as the loop leaves it and the final \<^verbatim>\<open>openai_messages\<close>. The
  message objects of a conversation are taken to be distinct objects.
\<close>

fun convert_messages ::
  "(string \<Rightarrow> string) \<Rightarrow> message list \<Rightarrow> chat_message_param list
     \<Rightarrow> message list \<times> chat_message_param list" where
  "convert_messages clean [] openai_messages = ([], openai_messages)"
| "convert_messages clean (m # ms) openai_messages =
     (let m' = m\<lparr>content := clean (content m)\<rparr>;
          openai_messages' =
            (if role m' = ''user''
             then openai_messages @ [\<lparr>param_role = ''user'', param_content = content m'\<rparr>]
             else if role m' = ''system''
             then openai_messages @ [\<lparr>param_role = ''system'', param_content = content m'\<rparr>]
             else openai_messages);
          (ms', result) = convert_messages clean ms openai_messages'
      in (m' # ms', result))"

text \<open>
  \<^verbatim>\<open>message.model_dump()\<close>: the dictionary of all fields of the completion message.
\<close>

definition model_dump :: "completion_message \<Rightarrow> py_value" where
  "model_dump m =
     PyDict ((''content'', (case msg_content m of None \<Rightarrow> PyNone | Some t \<Rightarrow> PyStr t))
             # (''role'', PyStr (msg_role m))
             # msg_extra m)"

text \<open>
  Lines 113-130: what the attempt makes of a completion. \<^verbatim>\<open>response.choices[0]\<close>
  raises \<^verbatim>\<open>IndexError\<close> on an empty list, and \<^verbatim>\<open>json.loads(None)\<close> raises
  \<^verbatim>\<open>TypeError\<close>; only \<^verbatim>\<open>JSONDecodeError\<close> is caught at line 123, and every
  other exception of \<^verbatim>\<open>json.loads\<close> leaves the attempt. The
  \<^verbatim>\<open>response_model\<close> is a class or \<^verbatim>\<open>None\<close>, here the name of the class; a class
  is truthy.
\<close>

definition normalize_response ::
  "client \<Rightarrow> string option \<Rightarrow> chat_completion \<Rightarrow> exn + py_value" where
  "normalize_response c response_model response =
     (case choices response of
        [] \<Rightarrow> Inl (Exn IndexError ''list index out of range'')
      | choice0 # _ \<Rightarrow>
          (let response_content = msg_content choice0 in
           if is_deepseek c \<and> response_model \<noteq> None then
             (case response_content of
                None \<Rightarrow>
                  Inl (Exn TypeError
                    ''the JSON object must be str, bytes or bytearray, not NoneType'')
              | Some raw \<Rightarrow>
                  (case json_loads c raw of
                     Inr parsed_content \<Rightarrow> Inr parsed_content
                   | Inl e \<Rightarrow>
                       if cls e = JSONDecodeError
                       then Inr (PyDict [(''content'', PyStr raw)])
                       else Inl e))
           else Inr (model_dump choice0)))"

text \<open>
  Lines 100-137 after the call: both \<^verbatim>\<open>except\<close> clauses log and re-raise, so an
  exception of the transport leaves the attempt as it is.
\<close>

definition attempt_result ::
  "client \<Rightarrow> string option \<Rightarrow> completion_result \<Rightarrow> exn + py_value" where
  "attempt_result c response_model r =
     (case r of
        Failed e \<Rightarrow> Inl e
      | Completed response \<Rightarrow> normalize_response c response_model response)"

text \<open>Lines 104-109: the request of an attempt.\<close>

definition build_params :: "client \<Rightarrow> chat_message_param list \<Rightarrow> completion_params" where
  "build_params c openai_messages =
     \<lparr>req_model = model_or_default c,
      req_messages = openai_messages,
      req_temperature = temperature c,
      req_max_tokens = max_tokens c\<rparr>"

text \<open>
  \<^verbatim>\<open>_generate_response\<close>: the result of the attempt (\<open>Inl\<close> an exception raised,
  \<open>Inr\<close> the value returned), the conversation with its contents overwritten, and
  the state of the outside world after the one call of the transport.
\<close>

definition generate_response_attempt ::
  "client \<Rightarrow> 's transport \<Rightarrow> 's \<Rightarrow> message list \<Rightarrow> string option
     \<Rightarrow> (exn + py_value) \<times> message list \<times> 's" where
  "generate_response_attempt c create s messages response_model =
     (let (messages', openai_messages) = convert_messages (clean_input c) messages [];
          (r, s') = create s (build_params c openai_messages)
      in (attempt_result c response_model r, messages', s'))"

section \<open>The retry loop: \<^verbatim>\<open>generate_response\<close>\<close>

text \<open>The local state of the loop, the caller's conversation and the outside world.\<close>

record 's retry_state =
  retry_count :: nat
  last_error :: "exn option"
  messages :: "message list"
  world :: 's

text \<open>Lines 166-172: the text of the corrective message.\<close>

definition error_context :: "exn \<Rightarrow> string" where
  "error_context e =
     ''The previous response attempt was invalid. '' @
     ''Error type: '' @ class_name (cls e) @ ''. '' @
     ''Error details: '' @ text_of e @ ''. '' @
     ''Please try again with a valid response, ensuring the output matches '' @
     ''the expected format and constraints.''"

text \<open>
  One execution of the loop body (lines 146-178): it either leaves the function,
  by \<^verbatim>\<open>return\<close> or \<^verbatim>\<open>raise\<close>, or goes on to the next test of the loop condition.
\<close>

datatype 's body_exit =
    Leave "(exn + py_value) \<times> message list \<times> 's"
  | Again "'s retry_state"

definition loop_body ::
  "client \<Rightarrow> 's transport \<Rightarrow> string option \<Rightarrow> 's retry_state \<Rightarrow> 's body_exit" where
  "loop_body c create response_model st =
     (case generate_response_attempt c create (world st) (messages st) response_model of
        (Inr response, ms, s) \<Rightarrow> Leave (Inr response, ms, s)
      | (Inl e, ms, s) \<Rightarrow>
          if cls e = RateLimitError \<or> cls e = RefusalError then Leave (Inl e, ms, s)
          else if cls e = APITimeoutError \<or> cls e = APIConnectionError
                  \<or> cls e = InternalServerError then Leave (Inl e, ms, s)
          else if is_Exception (cls e) then
            (if retry_count st \<ge> MAX_RETRIES then Leave (Inl e, ms, s)
             else Again \<lparr>retry_count = retry_count st + 1,
                         last_error = Some e,
                         messages = ms @ [\<lparr>role = ''user'', content = error_context e\<rparr>],
                         world = s\<rparr>)
          else Leave (Inl e, ms, s))"

text \<open>Line 181: \<^verbatim>\<open>raise last_error or Exception(...)\<close>.\<close>

definition fallback_error :: "exn option \<Rightarrow> exn" where
  "fallback_error le =
     (case le of
        Some e \<Rightarrow> e
      | None \<Rightarrow> Exn (OtherException ''Exception'') ''Max retries exceeded with no specific error'')"

function retry_loop ::
  "client \<Rightarrow> 's transport \<Rightarrow> string option \<Rightarrow> 's retry_state
     \<Rightarrow> (exn + py_value) \<times> message list \<times> 's" where
  "retry_loop c create response_model st =
     (if retry_count st \<le> MAX_RETRIES then
        (case loop_body c create response_model st of
           Leave out \<Rightarrow> out
         | Again st' \<Rightarrow> retry_loop c create response_model st')
      else (Inl (fallback_error (last_error st)), messages st, world st))"
  by pat_completeness auto
termination
  by (relation "measure (\<lambda>(c, create, rm, st). MAX_RETRIES + 1 - retry_count st)")
     (auto simp: loop_body_def split: prod.splits sum.splits if_splits)

declare retry_loop.simps [simp del]

text \<open>
  \<^verbatim>\<open>generate_response\<close>: the outcome, the caller's conversation as the call leaves
  it, and the outside world.
\<close>

definition generate_response ::
  "client \<Rightarrow> 's transport \<Rightarrow> 's \<Rightarrow> message list \<Rightarrow> string option
     \<Rightarrow> (exn + py_value) \<times> message list \<times> 's" where
  "generate_response c create s msgs response_model =
     retry_loop c create response_model
       \<lparr>retry_count = 0, last_error = None, messages = msgs, world = s\<rparr>"

text \<open>
  The state in which the loop condition is tested for the \<open>(n+1)\<close>-th time, when
  the loop, started in \<open>st\<close>, gets that far: \<open>n\<close> executions of the loop body,
  each of which goes on.
\<close>

fun state_after ::
  "client \<Rightarrow> 's transport \<Rightarrow> string option \<Rightarrow> nat \<Rightarrow> 's retry_state
     \<Rightarrow> 's retry_state option" where
  "state_after c create response_model 0 st = Some st"
| "state_after c create response_model (Suc n) st =
     (if retry_count st \<le> MAX_RETRIES then
        (case loop_body c create response_model st of
           Leave out \<Rightarrow> None
         | Again st' \<Rightarrow> state_after c create response_model n st')
      else None)"

text \<open>The state in which \<^verbatim>\<open>generate_response\<close> enters its loop (lines 142-143).\<close>

definition initial_state :: "message list \<Rightarrow> 's \<Rightarrow> 's retry_state" where
  "initial_state msgs s = \<lparr>retry_count = 0, last_error = None, messages = msgs, world = s\<rparr>"

section \<open>The environment of a call\<close>

text \<open>
  A transport that answers its \<open>k\<close>-th invocation (counted from 0) with
  \<open>replies k\<close>, whatever the request, and records every request it receives: the
  outside world is the list of requests received so far, so its length is the
  number of invocations.
\<close>

definition scripted :: "(nat \<Rightarrow> completion_result) \<Rightarrow> completion_params list transport" where
  "scripted replies received params = (replies (length received), received @ [params])"

text \<open>
  Any transport, with a counter of its invocations added to the outside world. The
  reply and the transport's own state are those of the transport.
\<close>

definition counted :: "'s transport \<Rightarrow> ('s \<times> nat) transport" where
  "counted create w params =
     (case create (fst w) params of (r, s') \<Rightarrow> (r, (s', Suc (snd w))))"

text \<open>
  The error classes of the \<^verbatim>\<open>except\<close> clauses of \<^verbatim>\<open>generate_response\<close>: the
  clauses at lines 149 and 152 re-raise at once; the clause at line 155 takes every
  other \<^verbatim>\<open>Exception\<close>, the application-level errors.
\<close>

definition non_retryable :: "exn \<Rightarrow> bool" where
  "non_retryable e =
     (cls e = RateLimitError \<or> cls e = RefusalError \<or> cls e = APITimeoutError
      \<or> cls e = APIConnectionError \<or> cls e = InternalServerError)"

definition application_level :: "exn \<Rightarrow> bool" where
  "application_level e = (is_Exception (cls e) \<and> \<not> non_retryable e)"

text \<open>The exception that an attempt raises on a reply of the transport, if any.\<close>

definition attempt_error :: "client \<Rightarrow> string option \<Rightarrow> completion_result \<Rightarrow> exn option" where
  "attempt_error c response_model r =
     (case attempt_result c response_model r of Inl e \<Rightarrow> Some e | Inr v \<Rightarrow> None)"

definition fails_at_application_level ::
  "client \<Rightarrow> string option \<Rightarrow> completion_result \<Rightarrow> bool" where
  "fails_at_application_level c response_model r =
     (case attempt_error c response_model r of Some e \<Rightarrow> application_level e | None \<Rightarrow> False)"

text \<open>One pass of the sanitizer over a message.\<close>

definition cleaned :: "client \<Rightarrow> message \<Rightarrow> message" where
  "cleaned c m = m\<lparr>content := clean_input c (content m)\<rparr>"

text \<open>
  Modelled from the spec: the Message Sanitizer, which is the method
  \<^verbatim>\<open>_clean_input\<close> of the base class \<^verbatim>\<open>LLMClient\<close> (client.py) and is not among
  the source files. The spec describes it as a pure transform from the raw content
  to a cleaned string with the same semantic content, a normalization of control
  characters: the control characters other than tab, line feed and carriage return
  are removed. It serves as the sanitizer of the concrete clients below; the
  theorems hold for every sanitizer.
\<close>

definition clean_input_spec :: "string \<Rightarrow> string" where
  "clean_input_spec s =
     filter (\<lambda>ch. (32::nat) \<le> of_char ch \<or> ch = CHR 0x09 \<or> ch = CHR 0x0A \<or> ch = CHR 0x0D) s"

text \<open>
  The claim about the response shape speaks of the configured model name: the
  marker test applied to \<^verbatim>\<open>self.model\<close> itself, an unset name containing nothing.
\<close>

definition configured_name_has_marker :: "client \<Rightarrow> bool" where
  "configured_name_has_marker c =
     (case model c of
        None \<Rightarrow> False
      | Some n \<Rightarrow> str_contains ''deepseek'' (lower (lower_unicode c) n))"

section \<open>Episode retrieval: \<^verbatim>\<open>retrieve_episodes\<close>\<close>

text \<open>
  An \<^verbatim>\<open>Episodic\<close> node of the graph, which is also the \<^verbatim>\<open>EpisodicNode\<close> that
  \<^verbatim>\<open>retrieve_episodes\<close> builds from a record of the query, field by field. A
  time is an instant on a discrete time line.
\<close>

record episodic_node =
  uuid :: string
  name :: string
  episode_content :: string
  source :: string
  source_description :: string
  created_at :: int
  valid_at :: int

text \<open>
  The query of lines 92-103 on the stored episodic nodes: \<^verbatim>\<open>WHERE e.valid_at <=
  $reference_time\<close>, \<^verbatim>\<open>ORDER BY e.created_at DESC\<close>, \<^verbatim>\<open>LIMIT $num_episodes\<close>.
  The order among nodes of equal \<^verbatim>\<open>created_at\<close> is the database's choice; here it
  comes from the order of the list of stored nodes, which is arbitrary. The count is
  a natural number.
\<close>

definition episodic_query :: "episodic_node list \<Rightarrow> int \<Rightarrow> nat \<Rightarrow> episodic_node list" where
  "episodic_query graph reference_time num_episodes =
     take num_episodes
       (rev (sort_key created_at (filter (\<lambda>e. valid_at e \<le> reference_time) graph)))"

text \<open>
  Lines 110-112: the \<^verbatim>\<open>created_at\<close> of a record goes through
  \<^verbatim>\<open>datetime.timestamp\<close>, a float, and back through \<^verbatim>\<open>datetime.fromtimestamp\<close>.
  Both are functions of the Python library. The round trip may return another
  instant than the stored one (the float has 53 bits) and may raise (near the end
  of the range of \<^verbatim>\<open>datetime\<close>); it is a parameter.
\<close>

type_synonym conversion = "int \<Rightarrow> exn + int"

text \<open>
  Lines 107-120: the list comprehension over \<^verbatim>\<open>result.records\<close>. Each node takes
  its fields from its record, \<^verbatim>\<open>created_at\<close> converted; the first conversion that
  raises ends the function.
\<close>

fun build_nodes :: "conversion \<Rightarrow> episodic_node list \<Rightarrow> exn + episodic_node list" where
  "build_nodes conv [] = Inr []"
| "build_nodes conv (record # records) =
     (case conv (created_at record) of
        Inl e \<Rightarrow> Inl e
      | Inr t \<Rightarrow>
          (case build_nodes conv records of
             Inl e \<Rightarrow> Inl e
           | Inr episodes \<Rightarrow> Inr (record\<lparr>created_at := t\<rparr> # episodes)))"

text \<open>\<^verbatim>\<open>retrieve_episodes\<close>: the nodes of the records of the query, reversed.\<close>

definition retrieve_episodes ::
  "conversion \<Rightarrow> episodic_node list \<Rightarrow> int \<Rightarrow> nat \<Rightarrow> exn + episodic_node list" where
  "retrieve_episodes conv graph reference_time last_n =
     (case build_nodes conv (episodic_query graph reference_time last_n) of
        Inl e \<Rightarrow> Inl e
      | Inr episodes \<Rightarrow> Inr (rev episodes))"

text \<open>A conversion that keeps the order of the instants it converts.\<close>

definition monotone_conversion :: "conversion \<Rightarrow> bool" where
  "monotone_conversion conv =
     (\<forall>a b x y. a \<le> b \<and> conv a = Inr x \<and> conv b = Inr y \<longrightarrow> x \<le> y)"

section \<open>Concrete inputs\<close>

text \<open>
  A decoder that knows two documents and rejects every other text, for the clients
  below.
\<close>

definition small_json_loads :: "string \<Rightarrow> exn + py_value" where
  "small_json_loads s =
     (if s = ''{}'' then Inr (PyDict [])
      else if s = ''[]'' then Inr (PyList [])
      else Inl (Exn JSONDecodeError ''Expecting value: line 1 column 1 (char 0)''))"

definition deepseek_client :: client where
  "deepseek_client =
     \<lparr>model = Some ''DeepSeek-chat'', temperature = 0, max_tokens = 8192,
      clean_input = clean_input_spec, json_loads = small_json_loads,
      lower_unicode = (\<lambda>s. s)\<rparr>"

definition other_client :: client where
  "other_client =
     \<lparr>model = Some ''gpt-4o-mini'', temperature = 0, max_tokens = 8192,
      clean_input = clean_input_spec, json_loads = small_json_loads,
      lower_unicode = (\<lambda>s. s)\<rparr>"

definition unset_client :: client where
  "unset_client =
     \<lparr>model = None, temperature = 0, max_tokens = 8192,
      clean_input = clean_input_spec, json_loads = small_json_loads,
      lower_unicode = (\<lambda>s. s)\<rparr>"

definition bell_conversation :: "message list" where
  "bell_conversation =
     [\<lparr>role = ''system'', content = ''extract''\<rparr>,
      \<lparr>role = ''assistant'', content = ''noted''\<rparr>,
      \<lparr>role = ''user'', content = [CHR ''h'', CHR 0x07, CHR ''i'']\<rparr>]"

definition answer :: "string \<Rightarrow> completion_result" where
  "answer t =
     Completed (ChatCompletion
       [\<lparr>msg_role = ''assistant'', msg_content = Some t, msg_extra = [(''refusal'', PyNone)]\<rparr>])"

definition value_error :: exn where
  "value_error = Exn (OtherException ''ValueError'') ''invalid response''"

text \<open>The exception of the transport on HTTP 429.\<close>

definition openai_rate_limit_error :: exn where
  "openai_rate_limit_error = Exn OpenAIRateLimitError ''Error code: 429''"

text \<open>The round trip on instants that the float represents exactly.\<close>

definition exact_conversion :: conversion where
  "exact_conversion t = Inr t"

definition two_episodes :: "episodic_node list" where
  "two_episodes =
     [\<lparr>uuid = ''a'', name = ''first'', episode_content = ''x'', source = ''message'',
       source_description = ''chat'', created_at = 1, valid_at = 20\<rparr>,
      \<lparr>uuid = ''b'', name = ''second'', episode_content = ''y'', source = ''message'',
       source_description = ''chat'', created_at = 2, valid_at = 10\<rparr>]"

section \<open>Properties of an attempt and of the loop body\<close>

lemma convert_messages_eq:
  "convert_messages clean ms acc =
     (map (\<lambda>m. m\<lparr>content := clean (content m)\<rparr>) ms,
      acc @ map (\<lambda>m. \<lparr>param_role = role m, param_content = clean (content m)\<rparr>)
              (filter (\<lambda>m. role m = ''user'' \<or> role m = ''system'') ms))"
  by (induction ms arbitrary: acc) (auto simp: Let_def)

lemma attempt_scripted:
  "generate_response_attempt c (scripted replies) received msgs rm =
     (attempt_result c rm (replies (length received)),
      map (cleaned c) msgs,
      received @ [build_params c (map (\<lambda>m. \<lparr>param_role = role m, param_content = clean_input c (content m)\<rparr>)
              (filter (\<lambda>m. role m = ''user'' \<or> role m = ''system'') msgs))])"
  by (simp add: generate_response_attempt_def convert_messages_eq scripted_def cleaned_def)

lemma state_after_snoc:
  "state_after c t rm (Suc n) st =
     (case state_after c t rm n st of
        None \<Rightarrow> None
      | Some st' \<Rightarrow> state_after c t rm (Suc 0) st')"
proof (induction n arbitrary: st)
  case 0
  show ?case by simp
next
  case (Suc n)
  show ?case
  proof (cases "retry_count st \<le> MAX_RETRIES")
    case True
    show ?thesis
    proof (cases "loop_body c t rm st")
      case (Leave out)
      then show ?thesis using True by simp
    next
      case (Again x)
      have "state_after c t rm (Suc (Suc n)) st = state_after c t rm (Suc n) x"
        using True Again by simp
      also have "\<dots> = (case state_after c t rm n x of
                          None \<Rightarrow> None
                        | Some st' \<Rightarrow> state_after c t rm (Suc 0) st')"
        by (rule Suc.IH)
      also have "state_after c t rm n x = state_after c t rm (Suc n) st"
        using True Again by simp
      finally show ?thesis .
    qed
  next
    case False
    then show ?thesis by simp
  qed
qed

lemma retry_loop_state_after:
  "state_after c t rm n st = Some st' \<Longrightarrow> retry_loop c t rm st = retry_loop c t rm st'"
proof (induction n arbitrary: st)
  case 0
  then show ?case by simp
next
  case (Suc n)
  then show ?case
    by (subst retry_loop.simps) (auto split: if_splits body_exit.splits)
qed

lemma state_after_bound:
  "state_after c t rm n st = Some st' \<Longrightarrow> retry_count st \<le> MAX_RETRIES \<Longrightarrow> retry_count st' \<le> MAX_RETRIES"
proof (induction n arbitrary: st)
  case 0
  then show ?case by simp
next
  case (Suc n)
  then show ?case
    by (auto simp: loop_body_def split: if_splits body_exit.splits prod.splits sum.splits)
qed

lemma attempt_scripted_fst:
  "fst (generate_response_attempt c (scripted replies) received msgs rm) =
     attempt_result c rm (replies (length received))"
  by (simp add: attempt_scripted)

lemma loop_body_scripted_Leave:
  "loop_body c (scripted replies) rm st = Leave out \<Longrightarrow>
     fst out = attempt_result c rm (replies (length (world st)))
     \<and> fst (snd out) = map (cleaned c) (messages st)
     \<and> length (snd (snd out)) = Suc (length (world st))"
  by (auto simp: loop_body_def attempt_scripted split: sum.splits if_splits)

lemma loop_body_scripted_Again:
  "loop_body c (scripted replies) rm st = Again st' \<Longrightarrow>
     retry_count st < MAX_RETRIES
     \<and> retry_count st' = Suc (retry_count st)
     \<and> messages st' = map (cleaned c) (messages st) @ [\<lparr>role = ''user'', content = error_context (the (last_error st'))\<rparr>]
     \<and> attempt_error c rm (replies (length (world st))) = last_error st'
     \<and> length (world st') = Suc (length (world st))"
  by (auto simp: loop_body_def attempt_scripted attempt_error_def split: sum.splits if_splits)

lemma loop_body_application_error:
  assumes "attempt_error c rm (replies (length (world st))) = Some e"
    and "application_level e"
  shows "loop_body c (scripted replies) rm st =
     (if retry_count st \<ge> MAX_RETRIES
      then Leave (Inl e, map (cleaned c) (messages st), snd (snd (generate_response_attempt c (scripted replies) (world st) (messages st) rm)))
      else Again \<lparr>retry_count = retry_count st + 1, last_error = Some e,
                  messages = map (cleaned c) (messages st) @ [\<lparr>role = ''user'', content = error_context e\<rparr>],
                  world = snd (snd (generate_response_attempt c (scripted replies) (world st) (messages st) rm))\<rparr>)"
  using assms
  by (auto simp: loop_body_def attempt_scripted attempt_error_def application_level_def non_retryable_def split: sum.splits)

lemma loop_body_non_retryable:
  assumes "attempt_error c rm (replies (length (world st))) = Some e"
    and "non_retryable e"
  shows "loop_body c (scripted replies) rm st =
      Leave (Inl e, map (cleaned c) (messages st), snd (snd (generate_response_attempt c (scripted replies) (world st) (messages st) rm)))"
  using assms
  by (auto simp: loop_body_def attempt_scripted attempt_error_def non_retryable_def split: sum.splits)

lemma retry_loop_calls_upper:
  "length (snd (snd (retry_loop c (scripted replies) rm st)))
     \<le> length (world st) + (MAX_RETRIES + 1 - retry_count st)"
proof (induction c "scripted replies" rm st rule: retry_loop.induct)
  case (1 c rm st)
  show ?case
  proof (cases "retry_count st \<le> MAX_RETRIES")
    case False
    then show ?thesis by (subst retry_loop.simps) simp
  next
    case True
    show ?thesis
    proof (cases "loop_body c (scripted replies) rm st")
      case (Leave out)
      with True loop_body_scripted_Leave [OF Leave] show ?thesis
        by (subst retry_loop.simps) simp
    next
      case (Again st')
      have eq: "retry_loop c (scripted replies) rm st = retry_loop c (scripted replies) rm st'"
        using True Again by (subst retry_loop.simps) simp
      have ih: "length (snd (snd (retry_loop c (scripted replies) rm st')))
                  \<le> length (world st') + (MAX_RETRIES + 1 - retry_count st')"
        by (rule "1.hyps" [OF True Again])
      have "retry_count st < MAX_RETRIES" "retry_count st' = Suc (retry_count st)"
        "length (world st') = Suc (length (world st))"
        using loop_body_scripted_Again [OF Again] by simp_all
      with ih show ?thesis
        unfolding eq by linarith
    qed
  qed
qed

lemma role_cleaned_funpow: "role ((cleaned c ^^ n) m) = role m"
  by (induction n) (simp_all add: cleaned_def)

lemma scripted_failures:
  assumes "N \<le> MAX_RETRIES"
    and "\<And>k. k < N \<Longrightarrow> fails_at_application_level c rm (replies k)"
  shows "\<exists>st. state_after c (scripted replies) rm N (initial_state msgs []) = Some st
          \<and> retry_count st = N
          \<and> length (world st) = N
          \<and> length (messages st) = length msgs + N
          \<and> (\<forall>i<length msgs. messages st ! i = (cleaned c ^^ N) (msgs ! i))
          \<and> (\<forall>k<N. \<exists>e. attempt_error c rm (replies k) = Some e
                 \<and> messages st ! (length msgs + k) =
                     (cleaned c ^^ (N - 1 - k)) \<lparr>role = ''user'', content = error_context e\<rparr>)"
  using assms
proof (induction N)
  case 0
  show ?case by (simp add: initial_state_def)
next
  case (Suc N)
  from Suc.prems have N: "N \<le> MAX_RETRIES" "N < MAX_RETRIES" by simp_all
  have "\<And>k. k < N \<Longrightarrow> fails_at_application_level c rm (replies k)"
    using Suc.prems(2) by simp
  from Suc.IH [OF N(1) this]
  obtain st where st: "state_after c (scripted replies) rm N (initial_state msgs []) = Some st"
    and rc: "retry_count st = N"
    and w: "length (world st) = N"
    and len: "length (messages st) = length msgs + N"
    and old: "\<forall>i<length msgs. messages st ! i = (cleaned c ^^ N) (msgs ! i)"
    and corr: "\<forall>k<N. \<exists>e. attempt_error c rm (replies k) = Some e
                 \<and> messages st ! (length msgs + k) =
                     (cleaned c ^^ (N - 1 - k)) \<lparr>role = ''user'', content = error_context e\<rparr>"
    by blast
  from Suc.prems(2) [of N] obtain e where e: "attempt_error c rm (replies N) = Some e"
    and app: "application_level e"
    by (auto simp: fails_at_application_level_def split: option.splits)
  define st' where "st' = \<lparr>retry_count = retry_count st + 1, last_error = Some e,
      messages = map (cleaned c) (messages st) @ [\<lparr>role = ''user'', content = error_context e\<rparr>],
      world = snd (snd (generate_response_attempt c (scripted replies) (world st) (messages st) rm))\<rparr>"
  have body: "loop_body c (scripted replies) rm st = Again st'"
    using loop_body_application_error [of c rm replies st e] e app N(2) rc w
    by (simp add: st'_def)
  have step: "state_after c (scripted replies) rm (Suc N) (initial_state msgs []) = Some st'"
    using st body rc N(1) by (subst state_after_snoc) simp
  have w': "length (world st') = Suc N"
    using loop_body_scripted_Again [OF body] w by simp
  have msgs': "messages st' = map (cleaned c) (messages st) @ [\<lparr>role = ''user'', content = error_context e\<rparr>]"
    by (simp add: st'_def)
  have old': "\<forall>i<length msgs. messages st' ! i = (cleaned c ^^ Suc N) (msgs ! i)"
    using old len by (simp add: msgs' nth_append)
  have corr': "\<exists>e'. attempt_error c rm (replies k) = Some e'
                 \<and> messages st' ! (length msgs + k) =
                     (cleaned c ^^ (Suc N - 1 - k)) \<lparr>role = ''user'', content = error_context e'\<rparr>"
    if "k < Suc N" for k
  proof (cases "k < N")
    case True
    with corr obtain e' where e': "attempt_error c rm (replies k) = Some e'"
      "messages st ! (length msgs + k) =
         (cleaned c ^^ (N - 1 - k)) \<lparr>role = ''user'', content = error_context e'\<rparr>"
      by blast
    have "Suc (N - 1 - k) = N - k" using True by simp
    then have "(cleaned c ^^ (N - k)) \<lparr>role = ''user'', content = error_context e'\<rparr>
       = cleaned c ((cleaned c ^^ (N - 1 - k)) \<lparr>role = ''user'', content = error_context e'\<rparr>)"
      by (metis funpow.simps(2) comp_apply)
    with e' True len show ?thesis
      by (simp add: msgs' nth_append)
  next
    case False
    with that have "k = N" by simp
    with e len show ?thesis by (simp add: msgs' nth_append)
  qed
  from step rc w' len old' corr' show ?case
    by (simp add: st'_def)
qed


lemma generate_response_from_state:
  "state_after c t rm n (initial_state msgs s) = Some st \<Longrightarrow>
     generate_response c t s msgs rm = retry_loop c t rm st"
  using retry_loop_state_after [of c t rm n "initial_state msgs s" st]
  by (simp add: generate_response_def initial_state_def)

lemma attempt_scripted_world:
  "length (snd (snd (generate_response_attempt c (scripted replies) received msgs rm)))
     = Suc (length received)"
  by (simp add: attempt_scripted)

lemma retry_loop_leaves:
  "retry_count st \<le> MAX_RETRIES \<Longrightarrow>
   \<exists>k st' out. k \<le> MAX_RETRIES - retry_count st
      \<and> state_after c t rm k st = Some st'
      \<and> loop_body c t rm st' = Leave out
      \<and> retry_loop c t rm st = out"
proof (induction c t rm st rule: retry_loop.induct)
  case (1 c t rm st)
  show ?case
  proof (cases "loop_body c t rm st")
    case (Leave out)
    have "retry_loop c t rm st = out"
      using Leave "1.prems" by (subst retry_loop.simps) simp
    with Leave have "0 \<le> MAX_RETRIES - retry_count st
      \<and> state_after c t rm 0 st = Some st
      \<and> loop_body c t rm st = Leave out
      \<and> retry_loop c t rm st = out" by simp
    then show ?thesis by blast
  next
    case (Again st1)
    have rc: "retry_count st < MAX_RETRIES" "retry_count st1 = retry_count st + 1"
      using Again by (auto simp: loop_body_def split: prod.splits sum.splits if_splits)
    then have "retry_count st1 \<le> MAX_RETRIES" by simp
    from "1.IH" [OF "1.prems" Again this]
    obtain k st' out where k: "k \<le> MAX_RETRIES - retry_count st1"
      and sa: "state_after c t rm k st1 = Some st'"
      and lv: "loop_body c t rm st' = Leave out"
      and rl: "retry_loop c t rm st1 = out"
      by blast
    have "Suc k \<le> MAX_RETRIES - retry_count st" using k rc by simp
    moreover have "state_after c t rm (Suc k) st = Some st'"
      using sa Again "1.prems" by simp
    moreover have "retry_loop c t rm st = out"
      using rl Again "1.prems" by (subst retry_loop.simps) simp
    ultimately show ?thesis using lv by blast
  qed
qed

lemma take_prefix_iff: "take (length p) s = p \<longleftrightarrow> (\<exists>post. s = p @ post)"
  by (metis append_eq_conv_conj)

lemma str_contains_iff: "str_contains p s \<longleftrightarrow> (\<exists>pre post. s = pre @ p @ post)"
proof (induction s)
  case Nil
  show ?case by auto
next
  case (Cons x xs)
  have "(\<exists>pre post. x # xs = pre @ p @ post)
        \<longleftrightarrow> (\<exists>post. x # xs = p @ post) \<or> (\<exists>pre post. xs = pre @ p @ post)"
    (is "?L \<longleftrightarrow> ?A \<or> ?B")
  proof
    assume ?L
    then obtain pre post where e: "x # xs = pre @ p @ post" by blast
    show "?A \<or> ?B"
    proof (cases pre)
      case Nil
      with e show ?thesis by auto
    next
      case (Cons y ys)
      with e have "xs = ys @ p @ post" by simp
      then show ?thesis by blast
    qed
  next
    assume "?A \<or> ?B"
    then show ?L
    proof
      assume ?A
      then obtain post where "x # xs = [] @ p @ post" by auto
      then show ?L by blast
    next
      assume ?B
      then obtain pre post where "xs = pre @ p @ post" by blast
      then have "x # xs = (x # pre) @ p @ post" by simp
      then show ?L by blast
    qed
  qed
  with Cons.IH show ?case
    by (simp only: str_contains.simps take_prefix_iff)
qed

lemma map_contains_iff:
  "(\<exists>pre' post'. map f s = pre' @ p @ post')
     \<longleftrightarrow> (\<exists>pre mid post. s = pre @ mid @ post \<and> map f mid = p)"
proof
  assume "\<exists>pre' post'. map f s = pre' @ p @ post'"
  then obtain pre' post' where h: "map f s = pre' @ p @ post'" by blast
  let ?mid = "take (length p) (drop (length pre') s)"
  have "map f ?mid = take (length p) (drop (length pre') (map f s))"
    by (simp only: take_map drop_map)
  also have "\<dots> = p"
    by (simp only: h) simp
  finally have m: "map f ?mid = p" .
  have "s = take (length pre') s @ ?mid @ drop (length p) (drop (length pre') s)"
    by (simp only: append_take_drop_id)
  with m show "\<exists>pre mid post. s = pre @ mid @ post \<and> map f mid = p"
    by blast
next
  assume "\<exists>pre mid post. s = pre @ mid @ post \<and> map f mid = p"
  then obtain pre mid post where "s = pre @ mid @ post" "map f mid = p"
    by blast
  then have "map f s = map f pre @ p @ map f post"
    by simp
  then show "\<exists>pre' post'. map f s = pre' @ p @ post'" by blast
qed

lemma is_deepseek_ascii_iff:
  assumes "is_ascii (model_or_default c)"
  shows "is_deepseek c \<longleftrightarrow>
     (\<exists>pre mid post. model_or_default c = pre @ mid @ post
        \<and> map lower_char mid = ''deepseek'')"
proof -
  have "lower (lower_unicode c) (model_or_default c) = map lower_char (model_or_default c)"
    using assms by (simp add: lower_def)
  then show ?thesis
    unfolding is_deepseek_def str_contains_iff
    by (simp only: map_contains_iff)
qed

lemma loop_body_scripted_world:
  "loop_body c (scripted replies) rm st = Leave out \<Longrightarrow>
     snd (snd out) = world st @
       [build_params c
          (map (\<lambda>m. \<lparr>param_role = role m, param_content = clean_input c (content m)\<rparr>)
             (filter (\<lambda>m. role m = ''user'' \<or> role m = ''system'') (messages st)))]"
  "loop_body c (scripted replies) rm st = Again st' \<Longrightarrow>
     world st' = world st @
       [build_params c
          (map (\<lambda>m. \<lparr>param_role = role m, param_content = clean_input c (content m)\<rparr>)
             (filter (\<lambda>m. role m = ''user'' \<or> role m = ''system'') (messages st)))]"
  by (auto simp: loop_body_def attempt_scripted split: sum.splits if_splits)

lemma retry_loop_first_request:
  assumes "retry_count st \<le> MAX_RETRIES"
  shows "take (Suc (length (world st))) (snd (snd (retry_loop c (scripted replies) rm st)))
    = world st @
       [build_params c
          (map (\<lambda>m. \<lparr>param_role = role m, param_content = clean_input c (content m)\<rparr>)
             (filter (\<lambda>m. role m = ''user'' \<or> role m = ''system'') (messages st)))]"
  using assms
proof (induction c "scripted replies" rm st rule: retry_loop.induct)
  case (1 c rm st)
  let ?R = "retry_loop c (scripted replies) rm st"
  show ?case
  proof (cases "loop_body c (scripted replies) rm st")
    case (Leave out)
    have R: "?R = out"
      using Leave "1.prems" by (subst retry_loop.simps) simp
    from loop_body_scripted_world(1) [OF Leave] show ?thesis
      unfolding R by simp
  next
    case (Again st1)
    have R: "?R = retry_loop c (scripted replies) rm st1"
      using Again "1.prems" by (subst retry_loop.simps) simp
    let ?W = "snd (snd (retry_loop c (scripted replies) rm st1))"
    let ?k = "length (world st)"
    have rc: "retry_count st1 \<le> MAX_RETRIES"
      using loop_body_scripted_Again [OF Again] by simp
    note w1 = loop_body_scripted_world(2) [OF Again]
    have l1: "length (world st1) = Suc ?k" by (simp add: w1)
    from "1.hyps" [OF "1.prems" Again rc]
    have "take (Suc (Suc ?k)) ?W = world st1 @
       [build_params c
          (map (\<lambda>m. \<lparr>param_role = role m, param_content = clean_input c (content m)\<rparr>)
             (filter (\<lambda>m. role m = ''user'' \<or> role m = ''system'') (messages st1)))]"
      by (simp only: l1)
    then have "take (Suc ?k) (take (Suc (Suc ?k)) ?W) = take (Suc ?k) (world st1 @
       [build_params c
          (map (\<lambda>m. \<lparr>param_role = role m, param_content = clean_input c (content m)\<rparr>)
             (filter (\<lambda>m. role m = ''user'' \<or> role m = ''system'') (messages st1)))])"
      by (rule arg_cong)
    then have "take (Suc ?k) ?W = world st1"
      using l1 by simp
    then show ?thesis
      unfolding R by (simp only: w1)
  qed
qed

lemma retry_loop_conversation:
  assumes "retry_count st \<le> MAX_RETRIES"
  shows "Suc (length (world st)) \<le> length (snd (snd (retry_loop c (scripted replies) rm st)))
    \<and> take (length (messages st)) (fst (snd (retry_loop c (scripted replies) rm st)))
        = map (cleaned c ^^ (length (snd (snd (retry_loop c (scripted replies) rm st)))
                              - length (world st))) (messages st)
    \<and> map role (drop (length (messages st)) (fst (snd (retry_loop c (scripted replies) rm st))))
        = replicate (length (snd (snd (retry_loop c (scripted replies) rm st)))
                       - Suc (length (world st))) ''user''"
  using assms
proof (induction c "scripted replies" rm st rule: retry_loop.induct)
  case (1 c rm st)
  let ?R = "retry_loop c (scripted replies) rm st"
  show ?case
  proof (cases "loop_body c (scripted replies) rm st")
    case (Leave out)
    have R: "?R = out"
      using Leave "1.prems" by (subst retry_loop.simps) simp
    from loop_body_scripted_Leave [OF Leave] show ?thesis
      unfolding R by simp
  next
    case (Again st1)
    have R: "?R = retry_loop c (scripted replies) rm st1"
      using Again "1.prems" by (subst retry_loop.simps) simp
    let ?F = "fst (snd (retry_loop c (scripted replies) rm st1))"
    let ?L = "length (snd (snd (retry_loop c (scripted replies) rm st1)))"
    let ?n = "length (messages st)"
    let ?k = "length (world st)"
    from loop_body_scripted_Again [OF Again]
    have rc: "retry_count st1 \<le> MAX_RETRIES"
      and m1: "messages st1 = map (cleaned c) (messages st)
                 @ [\<lparr>role = ''user'', content = error_context (the (last_error st1))\<rparr>]"
      and w1: "length (world st1) = Suc ?k"
      by simp_all
    from "1.hyps" [OF "1.prems" Again rc] w1
    have L: "Suc (Suc ?k) \<le> ?L"
      and tk: "take (length (messages st1)) ?F = map (cleaned c ^^ (?L - Suc ?k)) (messages st1)"
      and dr: "map role (drop (length (messages st1)) ?F) = replicate (?L - Suc (Suc ?k)) ''user''"
      by simp_all
    have len1: "length (messages st1) = Suc ?n" by (simp add: m1)
    have lenF: "Suc ?n \<le> length ?F"
      using arg_cong [OF tk, of length] len1 by simp
    have "take ?n ?F = take ?n (take (Suc ?n) ?F)" by simp
    also have "\<dots> = take ?n (map (cleaned c ^^ (?L - Suc ?k)) (messages st1))"
      using tk len1 by simp
    also have "\<dots> = map (cleaned c ^^ (?L - Suc ?k)) (map (cleaned c) (messages st))"
      by (simp add: m1)
    also have "\<dots> = map (cleaned c ^^ Suc (?L - Suc ?k)) (messages st)"
      by (simp add: funpow_swap1)
    also have "Suc (?L - Suc ?k) = ?L - ?k" using L by simp
    finally have tk': "take ?n ?F = map (cleaned c ^^ (?L - ?k)) (messages st)" .
    have "?F ! ?n = (take (Suc ?n) ?F) ! ?n" by simp
    also have "\<dots> = (cleaned c ^^ (?L - Suc ?k))
                       \<lparr>role = ''user'', content = error_context (the (last_error st1))\<rparr>"
      using tk len1 by (simp add: m1 nth_append)
    finally have "role (?F ! ?n) = ''user''"
      by (simp add: role_cleaned_funpow)
    moreover have "drop ?n ?F = ?F ! ?n # drop (Suc ?n) ?F"
      using lenF by (simp add: Cons_nth_drop_Suc)
    ultimately have "map role (drop ?n ?F) = ''user'' # replicate (?L - Suc (Suc ?k)) ''user''"
      using dr len1 by simp
    also have "\<dots> = replicate (Suc (?L - Suc (Suc ?k))) ''user''" by simp
    also have "Suc (?L - Suc (Suc ?k)) = ?L - Suc ?k" using L by simp
    finally have dr': "map role (drop ?n ?F) = replicate (?L - Suc ?k) ''user''" .
    from L tk' dr' show ?thesis
      unfolding R by simp
  qed
qed

lemma attempt_counted:
  "generate_response_attempt c (counted create) w msgs rm =
     (case generate_response_attempt c create (fst w) msgs rm of
        (r, ms, s') \<Rightarrow> (r, ms, (s', Suc (snd w))))"
  by (simp add: generate_response_attempt_def counted_def split: prod.splits)

lemma loop_body_counted_Leave:
  "loop_body c (counted create) rm st = Leave out \<Longrightarrow>
     snd (snd (snd out)) = Suc (snd (world st))"
  by (auto simp: loop_body_def attempt_counted split: prod.splits sum.splits if_splits)

lemma loop_body_counted_Again:
  "loop_body c (counted create) rm st = Again st' \<Longrightarrow>
     retry_count st < MAX_RETRIES
     \<and> retry_count st' = Suc (retry_count st)
     \<and> snd (world st') = Suc (snd (world st))"
  by (auto simp: loop_body_def attempt_counted split: prod.splits sum.splits if_splits)

lemma retry_loop_counted_upper:
  "snd (snd (snd (retry_loop c (counted create) rm st)))
     \<le> snd (world st) + (MAX_RETRIES + 1 - retry_count st)"
proof (induction c "counted create" rm st rule: retry_loop.induct)
  case (1 c rm st)
  show ?case
  proof (cases "retry_count st \<le> MAX_RETRIES")
    case False
    then show ?thesis by (subst retry_loop.simps) simp
  next
    case True
    show ?thesis
    proof (cases "loop_body c (counted create) rm st")
      case (Leave out)
      with True loop_body_counted_Leave [OF Leave] show ?thesis
        by (subst retry_loop.simps) simp
    next
      case (Again st')
      have eq: "retry_loop c (counted create) rm st = retry_loop c (counted create) rm st'"
        using True Again by (subst retry_loop.simps) simp
      have ih: "snd (snd (snd (retry_loop c (counted create) rm st')))
                  \<le> snd (world st') + (MAX_RETRIES + 1 - retry_count st')"
        by (rule "1.hyps" [OF True Again])
      have "retry_count st < MAX_RETRIES" "retry_count st' = Suc (retry_count st)"
        "snd (world st') = Suc (snd (world st))"
        using loop_body_counted_Again [OF Again] by simp_all
      with ih show ?thesis
        unfolding eq by linarith
    qed
  qed
qed

lemma listed_error_classes_propagate:
  assumes "N \<le> MAX_RETRIES"
    and "\<forall>k<N. fails_at_application_level c rm (replies k)"
    and "attempt_error c rm (replies N) = Some e"
    and "non_retryable e"
  shows "fst (generate_response c (scripted replies) [] msgs rm) = Inl e
         \<and> length (snd (snd (generate_response c (scripted replies) [] msgs rm))) = N + 1
         \<and> length (fst (snd (generate_response c (scripted replies) [] msgs rm))) = length msgs + N"
proof -
  from scripted_failures [of N c rm replies msgs] assms(1,2)
  obtain st where st: "state_after c (scripted replies) rm N (initial_state msgs []) = Some st"
    and rc: "retry_count st = N"
    and w: "length (world st) = N"
    and len: "length (messages st) = length msgs + N"
    by blast
  have run: "generate_response c (scripted replies) [] msgs rm = retry_loop c (scripted replies) rm st"
    by (rule generate_response_from_state [OF st])
  have body: "loop_body c (scripted replies) rm st =
      Leave (Inl e, map (cleaned c) (messages st),
             snd (snd (generate_response_attempt c (scripted replies) (world st) (messages st) rm)))"
    using loop_body_non_retryable [of c rm replies st e] assms(3,4) w by simp
  have "retry_loop c (scripted replies) rm st =
      (Inl e, map (cleaned c) (messages st),
             snd (snd (generate_response_attempt c (scripted replies) (world st) (messages st) rm)))"
    using body rc assms(1) by (subst retry_loop.simps) simp
  with run w len show ?thesis
    by (simp add: attempt_scripted_world)
qed

lemma build_nodes_Inr:
  "build_nodes conv rs = Inr ns \<Longrightarrow>
     list_all2 (\<lambda>r n. conv (created_at r) = Inr (created_at n)
                  \<and> n = r\<lparr>created_at := created_at n\<rparr>) rs ns"
proof (induction rs arbitrary: ns)
  case Nil
  then show ?case by simp
next
  case (Cons r rs)
  then show ?case
    by (auto split: sum.splits)
qed

lemma build_nodes_Inl:
  "build_nodes conv rs = Inl e \<Longrightarrow> \<exists>r \<in> set rs. conv (created_at r) = Inl e"
proof (induction rs)
  case Nil
  then show ?case by simp
next
  case (Cons r rs)
  then show ?case
    by (auto split: sum.splits)
qed

lemma episodic_query_set:
  "r \<in> set (episodic_query graph T n) \<Longrightarrow> r \<in> set graph \<and> valid_at r \<le> T"
proof -
  assume "r \<in> set (episodic_query graph T n)"
  then have "r \<in> set (rev (sort_key created_at (filter (\<lambda>e. valid_at e \<le> T) graph)))"
    unfolding episodic_query_def by (rule in_set_takeD)
  then show ?thesis by simp
qed

lemma episodic_query_sorted:
  "sorted (map created_at (rev (episodic_query graph T n)))"
proof -
  let ?xs = "sort_key created_at (filter (\<lambda>e. valid_at e \<le> T) graph)"
  have r: "rev (episodic_query graph T n) = drop (length ?xs - n) ?xs"
    by (simp add: episodic_query_def rev_take)
  have "sorted (map created_at ?xs)" by simp
  then have "sorted (map created_at (drop (length ?xs - n) ?xs))"
    by (simp only: drop_map [symmetric] sorted_wrt_drop)
  then show ?thesis by (simp only: r)
qed

lemma converted_sorted:
  assumes "list_all2 (\<lambda>r n. conv (created_at r) = Inr (created_at n)
                  \<and> n = r\<lparr>created_at := created_at n\<rparr>) rs ns"
    and "sorted (map created_at rs)"
    and "monotone_conversion conv"
  shows "sorted (map created_at ns)"
proof -
  have len: "length rs = length ns" using assms(1) by (rule list_all2_lengthD)
  have "created_at (ns ! i) \<le> created_at (ns ! j)" if "i \<le> j" "j < length ns" for i j
  proof -
    from that len have i: "i < length rs" and j: "j < length rs" by simp_all
    from assms(2) that(1) j have "created_at (rs ! i) \<le> created_at (rs ! j)"
      by (simp add: sorted_iff_nth_mono)
    moreover from list_all2_nthD [OF assms(1) i]
    have "conv (created_at (rs ! i)) = Inr (created_at (ns ! i))" by simp
    moreover from list_all2_nthD [OF assms(1) j]
    have "conv (created_at (rs ! j)) = Inr (created_at (ns ! j))" by simp
    ultimately show ?thesis
      using assms(3) unfolding monotone_conversion_def by blast
  qed
  then show ?thesis
    by (simp add: sorted_iff_nth_mono)
qed

lemma marker_in_default: "str_contains ''deepseek'' (lower u DEFAULT_MODEL)"
proof -
  have "is_ascii DEFAULT_MODEL" by code_simp
  moreover have "str_contains ''deepseek'' (map lower_char DEFAULT_MODEL)" by code_simp
  ultimately show ?thesis by (simp add: lower_def)
qed

section \<open>The claims about the retry loop\<close>

text \<open>
  Claim C1. For every client, conversation and response model,
  \<^verbatim>\<open>generate_response\<close> invokes the transport at most \<open>MAX_RETRIES + 1\<close> times,
  which is three: for every transport and every state of the outside world, counted
  by a counter that starts at 0, and for every sequence of replies of a scripted
  transport, counted by the requests it has received. The retry loop terminates on
  every input: \<open>retry_loop\<close> is a total function, by the measure
  \<open>MAX_RETRIES + 1 - retry_count\<close> of its termination proof.
\<close>

theorem generate_response_transport_calls_bounded:
  "snd (snd (snd (generate_response c (counted create) (s, 0) msgs rm))) \<le> MAX_RETRIES + 1
   \<and> length (snd (snd (generate_response c (scripted replies) [] msgs rm))) \<le> MAX_RETRIES + 1
   \<and> MAX_RETRIES + 1 = 3"
  using retry_loop_calls_upper
    [of c replies rm "\<lparr>retry_count = 0, last_error = None, messages = msgs, world = []\<rparr>"]
    retry_loop_counted_upper
    [of c create rm "\<lparr>retry_count = 0, last_error = None, messages = msgs, world = (s, 0)\<rparr>"]
  by (simp add: generate_response_def MAX_RETRIES_def)

text \<open>
  Claim C2. An exception of a class that line 149 or line 152 names leaves
  \<^verbatim>\<open>generate_response\<close> at once (lemma \<open>listed_error_classes_propagate\<close>). The
  rate-limit error of the transport is not among them: it is
  \<^verbatim>\<open>openai.RateLimitError\<close>, line 149 names the \<^verbatim>\<open>RateLimitError\<close> of
  \<^verbatim>\<open>.errors\<close>, and nothing in \<^verbatim>\<open>_generate_response\<close> turns the one into the
  other. So the clause of line 155 takes it. With a transport that answers every
  request with HTTP 429, \<^verbatim>\<open>generate_response\<close> invokes the transport three
  times, appends two corrective messages to the conversation, and raises the
  exception only when the retries are exhausted; the claim, and the comment of line
  150, ask for no retry.
\<close>

theorem openai_rate_limit_error_is_retried:
  "fst (generate_response deepseek_client (scripted (\<lambda>k. Failed openai_rate_limit_error)) []
          bell_conversation None) = Inl openai_rate_limit_error
   \<and> length (snd (snd (generate_response deepseek_client
          (scripted (\<lambda>k. Failed openai_rate_limit_error)) [] bell_conversation None))) = 3
   \<and> map role (fst (snd (generate_response deepseek_client
          (scripted (\<lambda>k. Failed openai_rate_limit_error)) [] bell_conversation None)))
        = [''system'', ''assistant'', ''user'', ''user'', ''user'']"
  by code_simp

text \<open>
  Claim C3. Let the first \<open>N\<close> attempts fail at application level, with
  \<open>N \<le> MAX_RETRIES\<close>. Then \<^verbatim>\<open>generate_response\<close> makes an \<open>(N+1)\<close>-th attempt,
  and the conversation \<open>messages st\<close> in which that attempt starts has the initial
  length plus \<open>N\<close>: the supplied messages stand at their positions with their roles
  (their contents sanitized once per attempt made), and behind them stand \<open>N\<close>
  corrective messages of role \<^verbatim>\<open>user\<close>, one per failed attempt and in the order
  of the attempts, each built from the error of its attempt. This conversation is
  what the call shows to the outside: the \<open>(N+1)\<close>-th request that the transport
  receives from \<^verbatim>\<open>generate_response\<close> holds its \<^verbatim>\<open>user\<close> and \<^verbatim>\<open>system\<close>
  messages, in order, and when the call ends the caller's list begins with its
  messages, in order (their contents sanitized once per later attempt).
\<close>

theorem conversation_grows_by_one_per_retry:
  assumes "N \<le> MAX_RETRIES"
    and "\<forall>k<N. fails_at_application_level c rm (replies k)"
  shows "\<exists>st. state_after c (scripted replies) rm N (initial_state msgs []) = Some st
          \<and> generate_response c (scripted replies) [] msgs rm = retry_loop c (scripted replies) rm st
          \<and> length (world st) = N
          \<and> length (messages st) = length msgs + N
          \<and> (\<forall>i<length msgs. messages st ! i = (cleaned c ^^ N) (msgs ! i)
                \<and> role (messages st ! i) = role (msgs ! i))
          \<and> (\<forall>k<N. role (messages st ! (length msgs + k)) = ''user''
                \<and> (\<exists>e. attempt_error c rm (replies k) = Some e
                     \<and> messages st ! (length msgs + k) =
                     (cleaned c ^^ (N - 1 - k)) \<lparr>role = ''user'', content = error_context e\<rparr>))
          \<and> N < length (snd (snd (generate_response c (scripted replies) [] msgs rm)))
          \<and> req_messages (snd (snd (generate_response c (scripted replies) [] msgs rm)) ! N) =
               map (\<lambda>m. \<lparr>param_role = role m, param_content = clean_input c (content m)\<rparr>)
                 (filter (\<lambda>m. role m = ''user'' \<or> role m = ''system'') (messages st))
          \<and> take (length msgs + N) (fst (snd (generate_response c (scripted replies) [] msgs rm))) =
               map (cleaned c ^^
                     (length (snd (snd (generate_response c (scripted replies) [] msgs rm))) - N))
                 (messages st)"
proof -
  from scripted_failures [of N c rm replies msgs] assms
  obtain st where st: "state_after c (scripted replies) rm N (initial_state msgs []) = Some st"
    and rc: "retry_count st = N"
    and w: "length (world st) = N"
    and len: "length (messages st) = length msgs + N"
    and old: "\<forall>i<length msgs. messages st ! i = (cleaned c ^^ N) (msgs ! i)"
    and corr: "\<forall>k<N. \<exists>e. attempt_error c rm (replies k) = Some e
                 \<and> messages st ! (length msgs + k) =
                     (cleaned c ^^ (N - 1 - k)) \<lparr>role = ''user'', content = error_context e\<rparr>"
    by blast
  let ?G = "generate_response c (scripted replies) [] msgs rm"
  have run: "?G = retry_loop c (scripted replies) rm st"
    by (rule generate_response_from_state [OF st])
  have old': "\<forall>i<length msgs. messages st ! i = (cleaned c ^^ N) (msgs ! i)
                \<and> role (messages st ! i) = role (msgs ! i)"
    using old by (simp add: role_cleaned_funpow)
  have corr': "\<forall>k<N. role (messages st ! (length msgs + k)) = ''user''
                \<and> (\<exists>e. attempt_error c rm (replies k) = Some e
                     \<and> messages st ! (length msgs + k) =
                     (cleaned c ^^ (N - 1 - k)) \<lparr>role = ''user'', content = error_context e\<rparr>)"
  proof (intro allI impI)
    fix k assume "k < N"
    with corr obtain e where e: "attempt_error c rm (replies k) = Some e"
      "messages st ! (length msgs + k) =
          (cleaned c ^^ (N - 1 - k)) \<lparr>role = ''user'', content = error_context e\<rparr>"
      by blast
    then have "role (messages st ! (length msgs + k)) = ''user''"
      by (simp add: role_cleaned_funpow)
    with e show "role (messages st ! (length msgs + k)) = ''user''
                \<and> (\<exists>e. attempt_error c rm (replies k) = Some e
                     \<and> messages st ! (length msgs + k) =
                     (cleaned c ^^ (N - 1 - k)) \<lparr>role = ''user'', content = error_context e\<rparr>)"
      by blast
  qed
  have bound: "retry_count st \<le> MAX_RETRIES" using rc assms(1) by simp
  have tk: "take (Suc N) (snd (snd ?G)) = world st @
       [build_params c
          (map (\<lambda>m. \<lparr>param_role = role m, param_content = clean_input c (content m)\<rparr>)
             (filter (\<lambda>m. role m = ''user'' \<or> role m = ''system'') (messages st)))]"
    using retry_loop_first_request [OF bound, of c replies rm] w by (simp only: run)
  have "length (take (Suc N) (snd (snd ?G))) = Suc N"
    using w by (simp only: tk) simp
  then have lt: "N < length (snd (snd ?G))" by simp
  have "snd (snd ?G) ! N = take (Suc N) (snd (snd ?G)) ! N" by simp
  also have "\<dots> = build_params c
          (map (\<lambda>m. \<lparr>param_role = role m, param_content = clean_input c (content m)\<rparr>)
             (filter (\<lambda>m. role m = ''user'' \<or> role m = ''system'') (messages st)))"
    using w by (simp only: tk) (simp add: nth_append)
  finally have req: "req_messages (snd (snd ?G) ! N) =
               map (\<lambda>m. \<lparr>param_role = role m, param_content = clean_input c (content m)\<rparr>)
                 (filter (\<lambda>m. role m = ''user'' \<or> role m = ''system'') (messages st))"
    by (simp add: build_params_def)
  have conv: "take (length msgs + N) (fst (snd ?G)) =
               map (cleaned c ^^ (length (snd (snd ?G)) - N)) (messages st)"
    using retry_loop_conversation [OF bound, of c replies rm] w len by (simp only: run)
  from st run w len old' corr' lt req conv show ?thesis by blast
qed

text \<open>
  Claim C3 at a concrete input: two application-level failures on a conversation
  of three messages, one of them of role \<^verbatim>\<open>assistant\<close>. The third request holds the
  two supplied messages that are sent and the two corrective messages.
\<close>

theorem conversation_grows_by_one_per_retry_witness:
  "(\<exists>st. state_after deepseek_client (scripted (\<lambda>k. Failed value_error)) None 2
           (initial_state bell_conversation []) = Some st
        \<and> length (messages st) = 5
        \<and> role (messages st ! 3) = ''user''
        \<and> role (messages st ! 4) = ''user''
        \<and> messages st ! 4 = \<lparr>role = ''user'', content = error_context value_error\<rparr>
        \<and> req_messages (snd (snd (generate_response deepseek_client
              (scripted (\<lambda>k. Failed value_error)) [] bell_conversation None)) ! 2) =
            map (\<lambda>m. \<lparr>param_role = role m,
                       param_content = clean_input deepseek_client (content m)\<rparr>)
              (filter (\<lambda>m. role m = ''user'' \<or> role m = ''system'') (messages st)))
   \<and> map param_role (req_messages (snd (snd (generate_response deepseek_client
              (scripted (\<lambda>k. Failed value_error)) [] bell_conversation None)) ! 2))
        = [''system'', ''user'', ''user'', ''user'']"
proof -
  have h1: "2 \<le> MAX_RETRIES" by (simp add: MAX_RETRIES_def)
  have h2: "\<forall>k<2. fails_at_application_level deepseek_client None ((\<lambda>k. Failed value_error) k)"
    by (simp add: fails_at_application_level_def attempt_error_def
        attempt_result_def application_level_def non_retryable_def value_error_def)
  from conversation_grows_by_one_per_retry [OF h1 h2, of bell_conversation]
  obtain st where st: "state_after deepseek_client (scripted (\<lambda>k. Failed value_error)) None 2
           (initial_state bell_conversation []) = Some st"
    and len: "length (messages st) = length bell_conversation + 2"
    and corr: "\<forall>k<2. role (messages st ! (length bell_conversation + k)) = ''user''
                \<and> (\<exists>e. attempt_error deepseek_client None (Failed value_error) = Some e
                     \<and> messages st ! (length bell_conversation + k) =
                     (cleaned deepseek_client ^^ (2 - 1 - k)) \<lparr>role = ''user'', content = error_context e\<rparr>)"
    and req: "req_messages (snd (snd (generate_response deepseek_client
              (scripted (\<lambda>k. Failed value_error)) [] bell_conversation None)) ! 2) =
            map (\<lambda>m. \<lparr>param_role = role m,
                       param_content = clean_input deepseek_client (content m)\<rparr>)
              (filter (\<lambda>m. role m = ''user'' \<or> role m = ''system'') (messages st))"
    by blast
  have n: "length bell_conversation = 3" by (simp add: bell_conversation_def)
  from corr [rule_format, of 0] corr [rule_format, of 1] n
  have "role (messages st ! 3) = ''user''" "role (messages st ! 4) = ''user''"
    "messages st ! 4 = \<lparr>role = ''user'', content = error_context value_error\<rparr>"
    by (simp_all add: attempt_error_def attempt_result_def cleaned_def)
  with st len n req
  have a: "\<exists>st. state_after deepseek_client (scripted (\<lambda>k. Failed value_error)) None 2
           (initial_state bell_conversation []) = Some st
        \<and> length (messages st) = 5
        \<and> role (messages st ! 3) = ''user''
        \<and> role (messages st ! 4) = ''user''
        \<and> messages st ! 4 = \<lparr>role = ''user'', content = error_context value_error\<rparr>
        \<and> req_messages (snd (snd (generate_response deepseek_client
              (scripted (\<lambda>k. Failed value_error)) [] bell_conversation None)) ! 2) =
            map (\<lambda>m. \<lparr>param_role = role m,
                       param_content = clean_input deepseek_client (content m)\<rparr>)
              (filter (\<lambda>m. role m = ''user'' \<or> role m = ''system'') (messages st))"
    by auto
  have b: "map param_role (req_messages (snd (snd (generate_response deepseek_client
              (scripted (\<lambda>k. Failed value_error)) [] bell_conversation None)) ! 2))
        = [''system'', ''user'', ''user'', ''user'']"
    by code_simp
  from a b show ?thesis by (rule conjI)
qed

text \<open>
  Claim C5. When every attempt up to the bound fails at application level,
  \<^verbatim>\<open>generate_response\<close> raises the error of the last attempt, the one numbered
  \<open>MAX_RETRIES\<close>, as the very exception object that the attempt raised (its class
  and its text), after \<open>MAX_RETRIES + 1\<close> invocations of the transport.
\<close>

theorem exhausted_retries_raise_last_error:
  assumes "\<forall>k\<le>MAX_RETRIES. fails_at_application_level c rm (replies k)"
  shows "\<exists>e. attempt_error c rm (replies MAX_RETRIES) = Some e
         \<and> application_level e
         \<and> fst (generate_response c (scripted replies) [] msgs rm) = Inl e
         \<and> length (snd (snd (generate_response c (scripted replies) [] msgs rm))) = MAX_RETRIES + 1"
proof -
  from scripted_failures [of MAX_RETRIES c rm replies msgs] assms
  obtain st where st: "state_after c (scripted replies) rm MAX_RETRIES (initial_state msgs []) = Some st"
    and rc: "retry_count st = MAX_RETRIES"
    and w: "length (world st) = MAX_RETRIES"
    by auto
  from assms obtain e where e: "attempt_error c rm (replies MAX_RETRIES) = Some e"
    and app: "application_level e"
    by (auto simp: fails_at_application_level_def split: option.splits)
  have run: "generate_response c (scripted replies) [] msgs rm = retry_loop c (scripted replies) rm st"
    by (rule generate_response_from_state [OF st])
  have body: "loop_body c (scripted replies) rm st =
      Leave (Inl e, map (cleaned c) (messages st),
             snd (snd (generate_response_attempt c (scripted replies) (world st) (messages st) rm)))"
    using loop_body_application_error [of c rm replies st e] e app w rc by simp
  have "retry_loop c (scripted replies) rm st =
      (Inl e, map (cleaned c) (messages st),
             snd (snd (generate_response_attempt c (scripted replies) (world st) (messages st) rm)))"
    using body rc by (subst retry_loop.simps) simp
  with run w e app show ?thesis
    by (simp add: attempt_scripted_world)
qed

text \<open>Claim C5 at a concrete input: a transport that fails with a \<^verbatim>\<open>ValueError\<close> on every attempt.\<close>

theorem exhausted_retries_raise_last_error_witness:
  "fst (generate_response deepseek_client (scripted (\<lambda>k. Failed value_error)) []
          bell_conversation None) = Inl value_error
   \<and> length (snd (snd (generate_response deepseek_client (scripted (\<lambda>k. Failed value_error)) []
          bell_conversation None))) = 3"
  using exhausted_retries_raise_last_error
    [of deepseek_client None "\<lambda>k. Failed value_error" bell_conversation]
  by (simp add: MAX_RETRIES_def fails_at_application_level_def attempt_error_def
        attempt_result_def application_level_def non_retryable_def value_error_def)

text \<open>
  Claim C8. The raise of line 181 is executed only when the loop condition is
  tested and found false. For every transport, every state in which the condition
  is tested has \<open>retry_count \<le> MAX_RETRIES\<close>, so the condition is never false; and
  the outcome of \<^verbatim>\<open>generate_response\<close> is always produced by a \<^verbatim>\<open>return\<close> or a
  \<^verbatim>\<open>raise\<close> inside the loop body, after at most \<open>MAX_RETRIES\<close> earlier executions
  of the body.
\<close>

theorem fallback_raise_unreachable:
  "(state_after c create rm n (initial_state msgs s) = Some st \<longrightarrow> retry_count st \<le> MAX_RETRIES)
   \<and> (\<exists>k st' out. k \<le> MAX_RETRIES
         \<and> state_after c create rm k (initial_state msgs s) = Some st'
         \<and> loop_body c create rm st' = Leave out
         \<and> generate_response c create s msgs rm = out)"
proof
  show "state_after c create rm n (initial_state msgs s) = Some st \<longrightarrow> retry_count st \<le> MAX_RETRIES"
    using state_after_bound [of c create rm n "initial_state msgs s" st]
    by (simp add: initial_state_def)
next
  have "retry_count (initial_state msgs s) \<le> MAX_RETRIES"
    by (simp add: initial_state_def)
  from retry_loop_leaves [OF this, of c create rm]
  show "\<exists>k st' out. k \<le> MAX_RETRIES
         \<and> state_after c create rm k (initial_state msgs s) = Some st'
         \<and> loop_body c create rm st' = Leave out
         \<and> generate_response c create s msgs rm = out"
    by (auto simp: generate_response_def initial_state_def)
qed

text \<open>Claim C8 at a concrete input: the state in which the third attempt starts.\<close>

theorem fallback_raise_unreachable_witness:
  "\<exists>st. state_after deepseek_client (scripted (\<lambda>k. Failed value_error)) None 2
           (initial_state bell_conversation []) = Some st
        \<and> retry_count st \<le> MAX_RETRIES"
proof -
  have h1: "2 \<le> MAX_RETRIES" by (simp add: MAX_RETRIES_def)
  have h2: "fails_at_application_level deepseek_client None ((\<lambda>k. Failed value_error) k)" for k :: nat
    by (simp add: fails_at_application_level_def attempt_error_def
        attempt_result_def application_level_def non_retryable_def value_error_def)
  from scripted_failures [OF h1 h2, of bell_conversation]
  obtain st where st: "state_after deepseek_client (scripted (\<lambda>k. Failed value_error)) None 2
           (initial_state bell_conversation []) = Some st"
    by blast
  with fallback_raise_unreachable
    [of deepseek_client "scripted (\<lambda>k. Failed value_error)" None 2 bell_conversation "[]" st]
  show ?thesis by blast
qed

section \<open>The claims about the conversation and the request\<close>

text \<open>
  Claim C6, as amended. The claim that the supplied messages are never changed fails:
  line 93 assigns the cleaned content to the message itself, on every attempt. What
  holds is this. When \<^verbatim>\<open>generate_response\<close> ends, after \<open>k\<close> invocations of the
  transport, the supplied messages stand at their positions in the caller's list,
  each with its role and with its content sanitized \<open>k\<close> times; the list is
  otherwise changed only by appending, and what follows the supplied messages are
  \<open>k - 1\<close> messages of role \<^verbatim>\<open>user\<close>.
\<close>

theorem sanitizing_overwrites_contents_in_place:
  "take (length msgs) (fst (snd (generate_response c (scripted replies) [] msgs rm)))
     = map (cleaned c ^^ length (snd (snd (generate_response c (scripted replies) [] msgs rm)))) msgs
   \<and> map role (take (length msgs) (fst (snd (generate_response c (scripted replies) [] msgs rm))))
     = map role msgs
   \<and> map role (drop (length msgs) (fst (snd (generate_response c (scripted replies) [] msgs rm))))
     = replicate (length (snd (snd (generate_response c (scripted replies) [] msgs rm))) - 1) ''user''"
proof -
  let ?st = "\<lparr>retry_count = 0, last_error = None, messages = msgs, world = []\<rparr>"
  have "retry_count ?st \<le> MAX_RETRIES" by simp
  from retry_loop_conversation [OF this, of c replies rm]
  have a: "take (length msgs) (fst (snd (generate_response c (scripted replies) [] msgs rm)))
     = map (cleaned c ^^ length (snd (snd (generate_response c (scripted replies) [] msgs rm)))) msgs"
    and b: "map role (drop (length msgs) (fst (snd (generate_response c (scripted replies) [] msgs rm))))
     = replicate (length (snd (snd (generate_response c (scripted replies) [] msgs rm))) - 1) ''user''"
    by (simp_all add: generate_response_def)
  have "map role (map (cleaned c ^^ n) msgs) = map role msgs" for n
    by (simp add: role_cleaned_funpow)
  with a b show ?thesis by simp
qed

text \<open>
  The counterexample to claim C6: a sanitizer that removes control characters, a
  conversation whose last message contains the control character BEL, and a
  transport that answers the first attempt. The caller's three messages are not the
  ones supplied.
\<close>

theorem supplied_messages_mutated:
  "take (length bell_conversation)
     (fst (snd (generate_response deepseek_client (scripted (\<lambda>k. answer ''{}'')) []
        bell_conversation None))) \<noteq> bell_conversation"
  by code_simp

text \<open>
  Claim C7. The request that an attempt hands to the transport holds, for every
  conversation, exactly the messages of role \<^verbatim>\<open>user\<close> or \<^verbatim>\<open>system\<close>, in their
  order and with their sanitized contents; every other message is left out. Its
  model is the configured name, or the default name when that is \<^verbatim>\<open>None\<close> or
  empty; temperature and token limit are the client's. One request is sent per
  attempt.
\<close>

theorem outbound_request_filters_roles:
  "snd (snd (generate_response_attempt c (scripted replies) received msgs rm)) =
     received @
     [\<lparr>req_model = (case model c of
                      None \<Rightarrow> DEFAULT_MODEL
                    | Some n \<Rightarrow> if n = [] then DEFAULT_MODEL else n),
       req_messages =
         map (\<lambda>m. \<lparr>param_role = role m, param_content = clean_input c (content m)\<rparr>)
           (filter (\<lambda>m. role m = ''user'' \<or> role m = ''system'') msgs),
       req_temperature = temperature c,
       req_max_tokens = max_tokens c\<rparr>]"
  by (simp add: attempt_scripted build_params_def model_or_default_def)

section \<open>The claims about the shape of the response\<close>

text \<open>
  Claim C4, as amended. The claim is stated for the configured model name. The code
  tests the effective name, \<^verbatim>\<open>self.model or DEFAULT_MODEL\<close>, and the default name
  contains the marker. What holds, for every completion with at least one choice:
  on a name of ASCII characters the test \<^verbatim>\<open>is_deepseek\<close> says that the effective
  model name contains the marker up to the case of its letters; when the test holds
  and a response model is given, a completion text that \<^verbatim>\<open>json.loads\<close> parses to
  a mapping yields that mapping, and one that it rejects with a
  \<^verbatim>\<open>JSONDecodeError\<close> yields the dictionary with the one key \<^verbatim>\<open>content\<close> and the
  raw text; when the test fails or no response model is given, the attempt returns
  the dump of the whole message. Nothing is said of a text that parses to a value
  that is not a mapping, of a text on which \<^verbatim>\<open>json.loads\<close> raises another
  exception, of a completion without text, or of a completion without choices.
\<close>

theorem response_shape_by_effective_model:
  assumes "replies (length received) = Completed (ChatCompletion (m # rest))"
  shows "(is_ascii (model_or_default c) \<longrightarrow>
            (is_deepseek c \<longleftrightarrow>
               (\<exists>pre mid post. model_or_default c = pre @ mid @ post
                  \<and> map lower_char mid = ''deepseek'')))
    \<and> (is_deepseek c \<and> rm \<noteq> None \<longrightarrow>
          (\<forall>raw. msg_content m = Some raw \<longrightarrow>
             (\<forall>kvs. json_loads c raw = Inr (PyDict kvs) \<longrightarrow>
                fst (generate_response_attempt c (scripted replies) received msgs rm) =
                  Inr (PyDict kvs))
             \<and> (\<forall>e. json_loads c raw = Inl e \<and> cls e = JSONDecodeError \<longrightarrow>
                fst (generate_response_attempt c (scripted replies) received msgs rm) =
                  Inr (PyDict [(''content'', PyStr raw)]))))
    \<and> (\<not> (is_deepseek c \<and> rm \<noteq> None) \<longrightarrow>
          fst (generate_response_attempt c (scripted replies) received msgs rm) =
            Inr (model_dump m))"
proof (intro conjI)
  show "is_ascii (model_or_default c) \<longrightarrow>
            (is_deepseek c \<longleftrightarrow>
               (\<exists>pre mid post. model_or_default c = pre @ mid @ post
                  \<and> map lower_char mid = ''deepseek''))"
    using is_deepseek_ascii_iff [of c] by blast
next
  show "is_deepseek c \<and> rm \<noteq> None \<longrightarrow>
          (\<forall>raw. msg_content m = Some raw \<longrightarrow>
             (\<forall>kvs. json_loads c raw = Inr (PyDict kvs) \<longrightarrow>
                fst (generate_response_attempt c (scripted replies) received msgs rm) =
                  Inr (PyDict kvs))
             \<and> (\<forall>e. json_loads c raw = Inl e \<and> cls e = JSONDecodeError \<longrightarrow>
                fst (generate_response_attempt c (scripted replies) received msgs rm) =
                  Inr (PyDict [(''content'', PyStr raw)])))"
    using assms
    by (auto simp: attempt_scripted attempt_result_def normalize_response_def)
next
  show "\<not> (is_deepseek c \<and> rm \<noteq> None) \<longrightarrow>
          fst (generate_response_attempt c (scripted replies) received msgs rm) =
            Inr (model_dump m)"
    using assms
    by (auto simp: attempt_scripted attempt_result_def normalize_response_def)
qed

text \<open>
  Claim C4 at concrete inputs: a text that parses to a mapping, a text that is
  rejected, and a model name without the marker.
\<close>

theorem response_shape_by_effective_model_witness:
  "fst (generate_response_attempt deepseek_client (scripted (\<lambda>k. answer ''{}'')) []
          bell_conversation (Some ''ExtractedEntities'')) = Inr (PyDict [])
   \<and> fst (generate_response_attempt deepseek_client (scripted (\<lambda>k. answer ''hello'')) []
          bell_conversation (Some ''ExtractedEntities'')) = Inr (PyDict [(''content'', PyStr ''hello'')])
   \<and> fst (generate_response_attempt other_client (scripted (\<lambda>k. answer ''{}'')) []
          bell_conversation (Some ''ExtractedEntities'')) =
        Inr (PyDict [(''content'', PyStr ''{}''), (''role'', PyStr ''assistant''), (''refusal'', PyNone)])"
proof -
  have d: "is_deepseek deepseek_client" by code_simp
  have o: "\<not> is_deepseek other_client" by code_simp
  have a: "(\<lambda>k::nat. answer t) (length ([] :: completion_params list)) =
     Completed (ChatCompletion
       (\<lparr>msg_role = ''assistant'', msg_content = Some t, msg_extra = [(''refusal'', PyNone)]\<rparr> # []))" for t
    by (simp add: answer_def)
  from response_shape_by_effective_model [OF a [of "''{}''"], where c = deepseek_client and rm = "Some ''ExtractedEntities''"
      and msgs = bell_conversation] d
  have 1: "fst (generate_response_attempt deepseek_client (scripted (\<lambda>k. answer ''{}'')) []
          bell_conversation (Some ''ExtractedEntities'')) = Inr (PyDict [])"
    by (simp add: deepseek_client_def small_json_loads_def)
  from response_shape_by_effective_model [OF a [of "''hello''"], where c = deepseek_client and rm = "Some ''ExtractedEntities''"
      and msgs = bell_conversation] d
  have 2: "fst (generate_response_attempt deepseek_client (scripted (\<lambda>k. answer ''hello'')) []
          bell_conversation (Some ''ExtractedEntities'')) = Inr (PyDict [(''content'', PyStr ''hello'')])"
    by (simp add: deepseek_client_def small_json_loads_def)
  from response_shape_by_effective_model [OF a [of "''{}''"], where c = other_client and rm = "Some ''ExtractedEntities''"
      and msgs = bell_conversation] o
  have 3: "fst (generate_response_attempt other_client (scripted (\<lambda>k. answer ''{}'')) []
          bell_conversation (Some ''ExtractedEntities'')) =
        Inr (PyDict [(''content'', PyStr ''{}''), (''role'', PyStr ''assistant''), (''refusal'', PyNone)])"
    by (simp add: model_dump_def)
  from 1 2 3 show ?thesis by simp
qed

text \<open>
  The counterexample to claim C4: a client with no configured model name, whose
  configured name therefore contains no marker, asked for a structured result. The
  completion text is decoded, and the value returned is not the message record.
\<close>

theorem unset_model_name_is_not_passed_through:
  "\<not> configured_name_has_marker unset_client
   \<and> fst (generate_response_attempt unset_client (scripted (\<lambda>k. answer ''{}'')) []
            bell_conversation (Some ''ExtractedEntities'')) = Inr (PyDict [])
   \<and> Inr (PyDict []) \<noteq>
       (Inr (model_dump \<lparr>msg_role = ''assistant'', msg_content = Some ''{}'',
                         msg_extra = [(''refusal'', PyNone)]\<rparr>) :: exn + py_value)"
  by code_simp

text \<open>
  Claim C10. When the configured model name is \<^verbatim>\<open>None\<close> or empty, the effective
  name is the default name \<^verbatim>\<open>deepseek\<close>, which contains the marker, and it is the
  model of the request. With a response model given, the outcome of the attempt on
  any completion is then that of the manual decode of the completion text of the
  first choice: the parsed value, the text under the key \<^verbatim>\<open>content\<close> when
  \<^verbatim>\<open>json.loads\<close> raises a \<^verbatim>\<open>JSONDecodeError\<close>, any other exception of
  \<^verbatim>\<open>json.loads\<close> itself, a \<^verbatim>\<open>TypeError\<close> when there is no text and an
  \<^verbatim>\<open>IndexError\<close> when there is no choice. The role and the further fields of the
  message play no part in it.
\<close>

theorem unset_model_decodes_manually:
  assumes "model c = None \<or> model c = Some []"
    and "replies (length received) = Completed response"
  shows "model_or_default c = ''deepseek''
    \<and> is_deepseek c
    \<and> req_model (last (snd (snd (generate_response_attempt c (scripted replies) received msgs (Some r)))))
         = ''deepseek''
    \<and> fst (generate_response_attempt c (scripted replies) received msgs (Some r)) =
         (case choices response of
            [] \<Rightarrow> Inl (Exn IndexError ''list index out of range'')
          | m # rest \<Rightarrow>
              (case msg_content m of
                 None \<Rightarrow> Inl (Exn TypeError
                      ''the JSON object must be str, bytes or bytearray, not NoneType'')
               | Some raw \<Rightarrow>
                   (case json_loads c raw of
                      Inr parsed \<Rightarrow> Inr parsed
                    | Inl e \<Rightarrow>
                        if cls e = JSONDecodeError
                        then Inr (PyDict [(''content'', PyStr raw)])
                        else Inl e)))"
proof -
  have d: "model_or_default c = DEFAULT_MODEL"
    using assms(1) by (auto simp: model_or_default_def)
  have i: "is_deepseek c"
    unfolding is_deepseek_def d by (rule marker_in_default)
  from d i assms(2) show ?thesis
    by (simp add: attempt_scripted attempt_result_def normalize_response_def
          build_params_def DEFAULT_MODEL_def split: option.splits list.splits sum.splits)
qed

text \<open>Claim C10 at a concrete input: a client with no configured model name.\<close>

theorem unset_model_decodes_manually_witness:
  "model_or_default unset_client = ''deepseek''
   \<and> is_deepseek unset_client
   \<and> fst (generate_response_attempt unset_client (scripted (\<lambda>k. answer ''hello'')) []
          bell_conversation (Some ''ExtractedEntities'')) = Inr (PyDict [(''content'', PyStr ''hello'')])"
proof -
  have m: "model unset_client = None \<or> model unset_client = Some []"
    by (simp add: unset_client_def)
  have a: "(\<lambda>k::nat. answer ''hello'') (length ([] :: completion_params list)) =
     Completed (ChatCompletion
       [\<lparr>msg_role = ''assistant'', msg_content = Some ''hello'', msg_extra = [(''refusal'', PyNone)]\<rparr>])"
    by (simp add: answer_def)
  from unset_model_decodes_manually [OF m a, where msgs = bell_conversation and r = "''ExtractedEntities''"]
  show ?thesis
    by (simp add: unset_client_def small_json_loads_def)
qed

section \<open>The claim about episode retrieval\<close>

text \<open>
  Claim C9, as amended. The query sorts by the creation time, not by the valid
  time. When \<^verbatim>\<open>retrieve_episodes\<close> returns, it returns at most \<open>n\<close> nodes, each
  with \<^verbatim>\<open>valid_at\<close> not after the reference time, one per record of the query and
  in ascending order of the \<^verbatim>\<open>created_at\<close> of the records: oldest to newest by
  creation. Each node is its record with \<^verbatim>\<open>created_at\<close> converted, so the nodes
  are in ascending order of their own \<^verbatim>\<open>created_at\<close> when the conversion keeps
  the order. When it does not return, it raises the exception of the conversion of
  a stored \<^verbatim>\<open>created_at\<close>.
\<close>

theorem retrieve_episodes_ordered_by_creation:
  "(case retrieve_episodes conv graph T n of
      Inl e \<Rightarrow> (\<exists>r \<in> set graph. conv (created_at r) = Inl e)
    | Inr eps \<Rightarrow>
        length eps \<le> n
        \<and> (\<forall>e \<in> set eps. valid_at e \<le> T)
        \<and> length eps = length (episodic_query graph T n)
        \<and> sorted (map created_at (rev (episodic_query graph T n)))
        \<and> (\<forall>i<length eps.
              conv (created_at (rev (episodic_query graph T n) ! i)) = Inr (created_at (eps ! i))
              \<and> eps ! i = (rev (episodic_query graph T n) ! i)\<lparr>created_at := created_at (eps ! i)\<rparr>)
        \<and> (monotone_conversion conv \<longrightarrow> sorted (map created_at eps)))"
proof (cases "build_nodes conv (episodic_query graph T n)")
  case (Inl e)
  from build_nodes_Inl [OF Inl] episodic_query_set
  have "\<exists>r \<in> set graph. conv (created_at r) = Inl e" by blast
  with Inl show ?thesis by (simp add: retrieve_episodes_def)
next
  case (Inr ns)
  let ?q = "episodic_query graph T n"
  let ?P = "\<lambda>r n. conv (created_at r) = Inr (created_at n) \<and> n = r\<lparr>created_at := created_at n\<rparr>"
  have eps: "retrieve_episodes conv graph T n = Inr (rev ns)"
    using Inr by (simp add: retrieve_episodes_def)
  have a2: "list_all2 ?P ?q ns" by (rule build_nodes_Inr [OF Inr])
  then have a2r: "list_all2 ?P (rev ?q) (rev ns)" by (simp only: list_all2_rev)
  have len: "length (rev ns) = length ?q"
    using list_all2_lengthD [OF a2] by simp
  have "length ?q \<le> n" by (simp add: episodic_query_def)
  with len have l: "length (rev ns) \<le> n" by simp
  have nth: "\<forall>i<length (rev ns).
              conv (created_at (rev ?q ! i)) = Inr (created_at (rev ns ! i))
              \<and> rev ns ! i = (rev ?q ! i)\<lparr>created_at := created_at (rev ns ! i)\<rparr>"
  proof (intro allI impI)
    fix i assume "i < length (rev ns)"
    with len have "i < length (rev ?q)" by simp
    from list_all2_nthD [OF a2r this]
    show "conv (created_at (rev ?q ! i)) = Inr (created_at (rev ns ! i))
              \<and> rev ns ! i = (rev ?q ! i)\<lparr>created_at := created_at (rev ns ! i)\<rparr>" .
  qed
  have v: "\<forall>e \<in> set (rev ns). valid_at e \<le> T"
  proof
    fix e assume "e \<in> set (rev ns)"
    then obtain i where i: "i < length (rev ns)" and e: "e = rev ns ! i"
      unfolding in_set_conv_nth by blast
    from nth i have eq: "rev ns ! i = (rev ?q ! i)\<lparr>created_at := created_at (rev ns ! i)\<rparr>"
      by blast
    from i len have "rev ?q ! i \<in> set ?q"
      by (metis length_rev nth_mem set_rev)
    then have "valid_at (rev ?q ! i) \<le> T" using episodic_query_set by blast
    moreover have "valid_at (rev ns ! i) = valid_at (rev ?q ! i)"
      by (subst eq) simp
    ultimately show "valid_at e \<le> T" using e by simp
  qed
  have s: "sorted (map created_at (rev ?q))" by (rule episodic_query_sorted)
  have m: "monotone_conversion conv \<longrightarrow> sorted (map created_at (rev ns))"
    using converted_sorted [OF a2r s] by blast
  from l v len s nth m show ?thesis
    unfolding eps by simp
qed

text \<open>
  Claim C9 at a concrete input: two stored nodes and a conversion that returns
  every instant as it is.
\<close>

theorem retrieve_episodes_ordered_by_creation_witness:
  "monotone_conversion exact_conversion
   \<and> retrieve_episodes exact_conversion two_episodes 50 2 = Inr two_episodes
   \<and> length two_episodes \<le> 2
   \<and> list_all (\<lambda>e. valid_at e \<le> 50) two_episodes
   \<and> sorted (map created_at two_episodes)"
proof -
  have m: "monotone_conversion exact_conversion"
    by (simp add: monotone_conversion_def exact_conversion_def)
  have r: "retrieve_episodes exact_conversion two_episodes 50 2 = Inr two_episodes"
    by code_simp
  from retrieve_episodes_ordered_by_creation [where conv = exact_conversion and graph = two_episodes and T = 50 and n = 2] m r
  show ?thesis
    by (simp add: list_all_iff)
qed

text \<open>
  The counterexample to claim C9, read as an order by valid time: two nodes with
  distinct valid times, the one created first being valid later. They are returned
  in the order of their creation, which is not the order of their valid times.
\<close>

theorem retrieve_episodes_not_ordered_by_valid_at:
  "distinct (map valid_at two_episodes)
   \<and> retrieve_episodes exact_conversion two_episodes 50 2 = Inr two_episodes
   \<and> \<not> sorted (map valid_at two_episodes)"
  by code_simp

end
